theory Spec2Isabelle
  imports Complex_Main "HOL-Library.Sublist"
begin

section \<open>JavaScript values and string primitives\<close>

text \<open>
  The scripts read four fields of the object decoded from \<^verbatim>\<open>process.argv[2]\<close>. A field
  value is a JSON scalar or is absent (\<open>JUndefined\<close>); arrays and objects as field values
  are outside the model. Numbers are the integer-valued ones: \<open>JNum n\<close> is the double
  whose value is the integer \<open>n\<close>. Strings are lists of code units in the range 0..255.
\<close>

datatype jsval = JUndefined | JNull | JBool bool | JNum int | JStr string

text \<open>ToBoolean, as used by \<^verbatim>\<open>a || b\<close>.\<close>

fun truthy :: "jsval \<Rightarrow> bool" where
  "truthy JUndefined = False"
| "truthy JNull = False"
| "truthy (JBool b) = b"
| "truthy (JNum n) = (n \<noteq> 0)"
| "truthy (JStr s) = (s \<noteq> [])"

definition js_or :: "jsval \<Rightarrow> jsval \<Rightarrow> jsval" where
  "js_or a b = (if truthy a then a else b)"

text \<open>\<^verbatim>\<open>s.indexOf(pat)\<close>: position of the first occurrence, \<open>None\<close> for \<^verbatim>\<open>-1\<close>.\<close>

fun indexOf :: "string \<Rightarrow> string \<Rightarrow> nat option" where
  "indexOf pat [] = (if pat = [] then Some 0 else None)"
| "indexOf pat (c # s) =
     (if prefix pat (c # s) then Some 0 else map_option Suc (indexOf pat s))"

text \<open>\<^verbatim>\<open>s.includes(pat)\<close>.\<close>

definition js_includes :: "string \<Rightarrow> string \<Rightarrow> bool" where
  "js_includes pat s = (indexOf pat s \<noteq> None)"

text \<open>
  \<^verbatim>\<open>s.replace(pat, rep)\<close> with a string pattern: only the first occurrence is replaced.
  Every replacement text in the scripts is free of \<^verbatim>\<open>$\<close>, so it is inserted literally.
\<close>

definition js_replace :: "string \<Rightarrow> string \<Rightarrow> string \<Rightarrow> string" where
  "js_replace pat rep s =
     (case indexOf pat s of
        None \<Rightarrow> s
      | Some i \<Rightarrow> take i s @ rep @ drop (i + length pat) s)"

text \<open>White space skipped by \<^verbatim>\<open>parseInt\<close> and removed by \<^verbatim>\<open>trim\<close>.\<close>

definition js_whitespace :: "char \<Rightarrow> bool" where
  "js_whitespace c =
     (c \<in> set [CHR 0x09, CHR 0x0A, CHR 0x0B, CHR 0x0C, CHR 0x0D, CHR 0x20, CHR 0xA0])"

definition is_digit :: "char \<Rightarrow> bool" where
  "is_digit c = (c \<in> set ''0123456789'')"

definition digit_val :: "char \<Rightarrow> nat" where
  "digit_val c = length (takeWhile (\<lambda>d. d \<noteq> c) ''0123456789'')"

definition digit_char :: "nat \<Rightarrow> char" where
  "digit_char d = ''0123456789'' ! d"

definition digits_value :: "string \<Rightarrow> nat" where
  "digits_value ds = foldl (\<lambda>a c. 10 * a + digit_val c) 0 ds"

text \<open>
  \<^verbatim>\<open>parseInt(s, 10)\<close> on a string: leading white space is skipped, one sign is read, then the
  longest run of decimal digits; \<open>None\<close> is \<^verbatim>\<open>NaN\<close> (no digit there).
\<close>

definition parseInt10 :: "string \<Rightarrow> int option" where
  "parseInt10 s =
     (let t = dropWhile js_whitespace s;
          neg = (t \<noteq> [] \<and> hd t = CHR ''-'');
          u = (if t \<noteq> [] \<and> (hd t = CHR ''-'' \<or> hd t = CHR ''+'') then tl t else t);
          ds = takeWhile is_digit u
      in if ds = [] then None
         else Some (if neg then - int (digits_value ds) else int (digits_value ds)))"

text \<open>Decimal digits of a non-negative integer, most significant first.\<close>

function digits_of :: "int \<Rightarrow> string" where
  "digits_of n =
     (if n < 10 then [digit_char (nat n)]
      else digits_of (n div 10) @ [digit_char (nat (n mod 10))])"
  by pat_completeness auto
termination
  by (relation "measure nat") auto

declare digits_of.simps [simp del]

definition strip_trailing_zeros :: "string \<Rightarrow> string" where
  "strip_trailing_zeros s = rev (dropWhile (\<lambda>c. c = CHR ''0'') (rev s))"

text \<open>
  Number-to-string conversion of an integer-valued number: plain decimal digits below
  \<open>10^21\<close> in absolute value, exponent notation from there on
  (\<^verbatim>\<open>String(1e21) === "1e+21"\<close>). The digits are those of the exact integer, which is
  what JavaScript prints for every integer up to \<open>2^53\<close> in absolute value; for a larger
  double it prints the shortest digits that read back as the same double, and these are
  the exact ones for some (as for \<open>10^21\<close>) and not for others.
\<close>

definition magnitude_to_string :: "int \<Rightarrow> string" where
  "magnitude_to_string m =
     (let ds = digits_of m
      in if m < 10 ^ 21 then ds
         else (let frac = strip_trailing_zeros (tl ds)
               in take 1 ds @ (if frac = [] then [] else CHR ''.'' # frac)
                    @ ''e+'' @ digits_of (int (length ds) - 1)))"

definition num_to_string :: "int \<Rightarrow> string" where
  "num_to_string n =
     (if n < 0 then CHR ''-'' # magnitude_to_string (- n) else magnitude_to_string n)"

text \<open>ToString of a value.\<close>

fun to_string :: "jsval \<Rightarrow> string" where
  "to_string JUndefined = ''undefined''"
| "to_string JNull = ''null''"
| "to_string (JBool b) = (if b then ''true'' else ''false'')"
| "to_string (JNum n) = num_to_string n"
| "to_string (JStr s) = s"

text \<open>\<^verbatim>\<open>parseInt(v, 10)\<close>: the argument is converted to a string first.\<close>

definition parseInt :: "jsval \<Rightarrow> int option" where
  "parseInt v = parseInt10 (to_string v)"

text \<open>
  How \<^verbatim>\<open>JSON.parse\<close> reads an integer literal. A number is an IEEE double: the literal is
  rounded to 53 significant bits, a tie going to the even neighbour, so it is kept as it
  is up to \<open>2^53\<close> and may change beyond (\<^verbatim>\<open>9007199254740993\<close> reads as
  \<^verbatim>\<open>9007199254740992\<close>). Literals beyond the finite range of the doubles are outside the
  model.
\<close>

function bit_length :: "int \<Rightarrow> nat" where
  "bit_length n = (if n \<le> 0 then 0 else Suc (bit_length (n div 2)))"
  by pat_completeness auto
termination
  by (relation "measure nat") auto

declare bit_length.simps [simp del]

definition nearest_double :: "int \<Rightarrow> int" where
  "nearest_double n =
     (let m = \<bar>n\<bar>;
          k = bit_length m - 53
      in if k = 0 then n
         else (let q = m div 2 ^ k;
                   r = m mod 2 ^ k;
                   q' = (if 2 * r > 2 ^ k \<or> (2 * r = 2 ^ k \<and> odd q) then q + 1 else q)
               in sgn n * (q' * 2 ^ k)))"

definition json_number :: "int \<Rightarrow> jsval" where
  "json_number n = JNum (nearest_double n)"

section \<open>Arguments and viewport selection (generateExactPdf)\<close>

record args =
  htmlContent :: jsval
  outputPath :: jsval
  deviceWidth :: jsval
  viewType :: jsval

text \<open>
  What \<^verbatim>\<open>JSON.parse(process.argv[2])\<close> yields: a \<^verbatim>\<open>SyntaxError\<close> (also when the argument
  is missing), the value \<^verbatim>\<open>null\<close> (every field read then throws a \<^verbatim>\<open>TypeError\<close>), or a
  value whose fields can be read (a field that is not there reads as \<open>JUndefined\<close>).
\<close>

datatype cli_arg = Malformed | NullLiteral | Parsed args

definition defaultDesktopWidth :: int where
  "defaultDesktopWidth = 600"

definition mobileWidth :: int where
  "mobileWidth = 360"

text \<open>\<^verbatim>\<open>args.deviceWidth || 610\<close> and \<^verbatim>\<open>args.viewType || 'desktop'\<close>.\<close>

definition deviceWidth_of :: "args \<Rightarrow> jsval" where
  "deviceWidth_of a = js_or (deviceWidth a) (JNum 610)"

definition viewType_of :: "args \<Rightarrow> jsval" where
  "viewType_of a = js_or (viewType a) (JStr ''desktop'')"

datatype view_branch = MobileBranch | CustomBranch | DesktopBranch

text \<open>The \<^verbatim>\<open>if / else if / else\<close> that picks the width; \<^verbatim>\<open>===\<close> and \<^verbatim>\<open>!==\<close> are strict.\<close>

definition select_branch :: "args \<Rightarrow> view_branch" where
  "select_branch a =
     (if viewType_of a = JStr ''mobile'' then MobileBranch
      else if deviceWidth_of a \<noteq> JNum defaultDesktopWidth then CustomBranch
      else DesktopBranch)"

text \<open>\<open>None\<close> is \<^verbatim>\<open>NaN\<close>.\<close>

definition viewportWidth :: "args \<Rightarrow> int option" where
  "viewportWidth a =
     (case select_branch a of
        MobileBranch \<Rightarrow> Some mobileWidth
      | CustomBranch \<Rightarrow> parseInt (deviceWidth_of a)
      | DesktopBranch \<Rightarrow> Some defaultDesktopWidth)"

definition pdfTitle :: "args \<Rightarrow> string" where
  "pdfTitle a =
     (case select_branch a of
        MobileBranch \<Rightarrow> ''Mobile View PDF''
      | CustomBranch \<Rightarrow> ''Custom View PDF''
      | DesktopBranch \<Rightarrow> ''Desktop View PDF'')"

text \<open>\<^verbatim>\<open>isMobile: (viewType === 'mobile')\<close>\<close>

definition isMobile :: "args \<Rightarrow> bool" where
  "isMobile a = (viewType_of a = JStr ''mobile'')"

section \<open>Markup normalisation\<close>

definition documentShellOpen :: string where
  "documentShellOpen = ''<!DOCTYPE html><html><head></head><body>''"

definition documentShellClose :: string where
  "documentShellClose = ''</body></html>''"

definition metaViewportPrefix :: string where
  \<open>metaViewportPrefix = ''<meta name="viewport"''\<close>

definition metaViewportTag :: string where
  \<open>metaViewportTag =
     ''<meta name="viewport" content="width=device-width, initial-scale=1.0, shrink-to-fit=no">''\<close>

text \<open>\<^verbatim>\<open>if (!finalHtmlContent.includes('<html')) ...\<close>: wrap a fragment in a document shell.\<close>

definition ensure_html :: "string \<Rightarrow> string" where
  "ensure_html s =
     (if \<not> js_includes ''<html'' s then documentShellOpen @ s @ documentShellClose else s)"

text \<open>\<^verbatim>\<open>if (!finalHtmlContent.includes('<head>')) ...\<close>\<close>

definition ensure_head :: "string \<Rightarrow> string" where
  "ensure_head s =
     (if \<not> js_includes ''<head>'' s then js_replace ''<body>'' ''<head></head><body>'' s
      else s)"

text \<open>The viewport meta tag goes in front of the first \<^verbatim>\<open></head>\<close>, when there is one.\<close>

definition ensure_viewport :: "string \<Rightarrow> string" where
  "ensure_viewport s =
     (if \<not> js_includes metaViewportPrefix s then
        (case indexOf ''</head>'' s of
           Some headEndIndex \<Rightarrow> take headEndIndex s @ metaViewportTag @ drop headEndIndex s
         | None \<Rightarrow> s)
      else s)"

text \<open>The title goes right after the first \<^verbatim>\<open><head>\<close>, when there is one.\<close>

definition ensure_title :: "string \<Rightarrow> string \<Rightarrow> string" where
  "ensure_title title s =
     (if \<not> js_includes ''<title>'' s then
        (case indexOf ''<head>'' s of
           Some headStartTagIndex \<Rightarrow>
             take (headStartTagIndex + length ''<head>'') s
               @ ''<title>'' @ js_replace '' PDF'' [] title @ ''</title>''
               @ drop (headStartTagIndex + length ''<head>'') s
         | None \<Rightarrow> s)
      else s)"

definition finalHtmlContent :: "string \<Rightarrow> string \<Rightarrow> string" where
  "finalHtmlContent title s = ensure_title title (ensure_viewport (ensure_head (ensure_html s)))"

text \<open>
  \<^verbatim>\<open>htmlContent\<close> is whatever the caller sent. Calling \<^verbatim>\<open>.includes\<close> on anything but a
  string throws a \<^verbatim>\<open>TypeError\<close> (\<open>None\<close>).
\<close>

definition normalise :: "string \<Rightarrow> jsval \<Rightarrow> string option" where
  "normalise title v = (case v of JStr s \<Rightarrow> Some (finalHtmlContent title s) | _ \<Rightarrow> None)"

text \<open>Number of positions at which a pattern occurs in a string.\<close>

fun occurrences :: "string \<Rightarrow> string \<Rightarrow> nat" where
  "occurrences pat [] = (if pat = [] then 1 else 0)"
| "occurrences pat (c # s) = (if prefix pat (c # s) then 1 else 0) + occurrences pat s"

section \<open>The rendered document and the measurement of its content height\<close>

text \<open>
  The measurement runs inside the page. What it reads there is the element tree, and for
  each element the computed style, the bottom edge of its bounding rectangle and (for
  images) the \<^verbatim>\<open>complete\<close> flag: these are the layout engine's results and are data
  of the model. \<^verbatim>\<open>textContent\<close> is computed from the tree. Coordinates are rationals.
\<close>

record cstyle =
  display :: string
  visibility :: string
  opacity :: string
  backgroundImage :: string
  marginBottom :: string

datatype element =
  Element (tagName: string) (style: cstyle) (bottom: rat) (complete: bool)
    (childNodes: "child list")
and child = Text string | Child element

fun textContent :: "element \<Rightarrow> string"
  and child_text :: "child \<Rightarrow> string" where
  "textContent (Element t st b c kids) = concat (map child_text kids)"
| "child_text (Text s) = s"
| "child_text (Child e) = textContent e"

text \<open>\<^verbatim>\<open>querySelectorAll('*')\<close>: every element, in document order.\<close>

fun all_elements :: "element \<Rightarrow> element list"
  and child_elements :: "child \<Rightarrow> element list" where
  "all_elements (Element t st b c kids) =
     Element t st b c kids # concat (map child_elements kids)"
| "child_elements (Text s) = []"
| "child_elements (Child e) = all_elements e"

definition js_trim :: "string \<Rightarrow> string" where
  "js_trim s = rev (dropWhile js_whitespace (rev (dropWhile js_whitespace s)))"

definition hidden :: "element \<Rightarrow> bool" where
  "hidden el =
     (display (style el) = ''none'' \<or> visibility (style el) = ''hidden''
        \<or> opacity (style el) = ''0'')"

definition hasVisibleContent :: "element \<Rightarrow> bool" where
  "hasVisibleContent el =
     (length (js_trim (textContent el)) > 0
        \<or> (tagName el = ''IMG'' \<and> complete el)
        \<or> (backgroundImage (style el) \<noteq> [] \<and> backgroundImage (style el) \<noteq> ''none''))"

text \<open>One turn of the \<^verbatim>\<open>for\<close> loop over \<open>(lastVisibleElement, maxBottom)\<close>.\<close>

fun scan_step :: "element option \<times> rat \<Rightarrow> element \<Rightarrow> element option \<times> rat" where
  "scan_step (lastVisibleElement, maxBottom) el =
     (if hidden el then (lastVisibleElement, maxBottom)
      else if hasVisibleContent el \<and> bottom el > maxBottom then (Some el, bottom el)
      else (lastVisibleElement, maxBottom))"

definition scan :: "element list \<Rightarrow> element option \<times> rat" where
  "scan els = foldl scan_step (None, 0) els"

text \<open>\<^verbatim>\<open>parseInt(style.marginBottom, 10) || 0\<close>\<close>

definition marginBottom_px :: "element \<Rightarrow> int" where
  "marginBottom_px el = (case parseInt10 (marginBottom (style el)) of None \<Rightarrow> 0 | Some n \<Rightarrow> n)"

text \<open>
  What \<^verbatim>\<open>return\<close> yields after the loop, over the scanned elements and the bottom edge of
  \<^verbatim>\<open>document.body\<close> (\<open>None\<close>: there is no body, and reading its rectangle throws).
\<close>

definition measure_elements :: "element list \<Rightarrow> rat option \<Rightarrow> int option" where
  "measure_elements els bodyBottom =
     (case scan els of
        (Some el, maxBottom) \<Rightarrow> Some \<lceil>maxBottom + of_int (marginBottom_px el)\<rceil>
      | (None, maxBottom) \<Rightarrow> map_option ceiling bodyBottom)"

text \<open>\<^verbatim>\<open>document.body\<close>: the first body or frameset child of the root element.\<close>

definition is_body :: "child \<Rightarrow> bool" where
  "is_body k =
     (case k of Text s \<Rightarrow> False
      | Child e \<Rightarrow> tagName e = ''BODY'' \<or> tagName e = ''FRAMESET'')"

definition document_body :: "element \<Rightarrow> element option" where
  "document_body doc =
     (case find is_body (childNodes doc) of Some (Child e) \<Rightarrow> Some e | _ \<Rightarrow> None)"

definition contentHeight :: "element \<Rightarrow> int option" where
  "contentHeight doc =
     measure_elements (all_elements doc) (map_option bottom (document_body doc))"

text \<open>The value of the fallback branch: \<^verbatim>\<open>Math.ceil(document.body.getBoundingClientRect().bottom)\<close>.\<close>

definition fallbackHeight :: "element \<Rightarrow> int option" where
  "fallbackHeight doc = map_option ceiling (map_option bottom (document_body doc))"

definition display_none :: "element \<Rightarrow> bool" where
  "display_none el = (display (style el) = ''none'')"

text \<open>The elements inside the body: its descendants, in document order.\<close>

definition inside_body :: "element \<Rightarrow> element list" where
  "inside_body doc =
     (case document_body doc of
        None \<Rightarrow> []
      | Some b \<Rightarrow> concat (map child_elements (childNodes b)))"






section \<open>The browser session as a trace of calls\<close>

text \<open>
  A run is the list of calls the script makes, in order, and how it ends. An event is
  recorded when the call is made; whether the call then resolves or rejects is decided by
  the engine below.
\<close>

text \<open>
  A length in inches as the script computes it: the quotient of two doubles, here always a
  pixel count over 96, which it then formats into a string such as
  \<^verbatim>\<open>"7.291666666666667in"\<close>. The model keeps the two operands and does not compute the
  rounded quotient.
\<close>

datatype js_quotient = Divided int int

datatype event =
    Launch
  | NewPage
  | SetViewport "int option" int int bool
      \<comment> \<open>width (\<open>None\<close> is \<^verbatim>\<open>NaN\<close>), height, deviceScaleFactor, isMobile\<close>
  | SetContent jsval
      \<comment> \<open>with \<^verbatim>\<open>waitUntil: 'networkidle0'\<close>: resolves after 500 ms without network activity\<close>
  | EmulateMediaType
  | WaitForImages nat
      \<comment> \<open>\<^verbatim>\<open>waitForFunction\<close> on the images, with its timeout in ms\<close>
  | LogImagesTimeout
      \<comment> \<open>\<^verbatim>\<open>console.log('Some images might not have loaded within timeout.')\<close>\<close>
  | FontsReady
  | Delay nat
  | AddStyleTag
  | Measure
  | Pdf jsval "js_quotient option" js_quotient
      \<comment> \<open>path, width and height in inches (a \<open>None\<close> width is \<^verbatim>\<open>NaN\<close>)\<close>
  | PdfPx jsval int int
      \<comment> \<open>path, width and height in pixels\<close>
  | LogSuccess
  | LogError
  | ProcessExit int
  | BrowserClose

text \<open>
  How a block of statements completes: it runs to its end, it throws, or it has called
  \<^verbatim>\<open>process.exit\<close>, which ends the process on the spot: no statement, \<^verbatim>\<open>catch\<close> or
  \<^verbatim>\<open>finally\<close> block runs after it.
\<close>

datatype completion = Normal | Threw | Exited int

type_synonym run = "event list \<times> completion"

text \<open>An awaited call to the browser: it resolves or it rejects.\<close>

definition call :: "event \<Rightarrow> bool \<Rightarrow> run" where
  "call ev ok = ([ev], if ok then Normal else Threw)"

text \<open>A statement that cannot throw.\<close>

definition does :: "event \<Rightarrow> run" where
  "does ev = ([ev], Normal)"

definition exits :: "int \<Rightarrow> run" where
  "exits code = ([ProcessExit code], Exited code)"

text \<open>Statements one after the other: the first that does not complete normally ends the block.\<close>

fun block :: "run list \<Rightarrow> run" where
  "block [] = ([], Normal)"
| "block ((t, Normal) # rest) = (t @ fst (block rest), snd (block rest))"
| "block ((t, c) # rest) = (t, c)"

text \<open>\<^verbatim>\<open>promise.catch(handler)\<close>\<close>

fun catch_with :: "run \<Rightarrow> run \<Rightarrow> run" where
  "catch_with (t, Threw) handler = (t @ fst handler, snd handler)"
| "catch_with (t, c) handler = (t, c)"

text \<open>
  \<^verbatim>\<open>try { body } catch { handler } finally { finalizer }\<close>. The finalizer runs unless the
  process has exited inside the body or the handler.
\<close>

definition try_catch_finally :: "run \<Rightarrow> run \<Rightarrow> run \<Rightarrow> run" where
  "try_catch_finally body handler finalizer =
     (case catch_with body handler of
        (t, Exited code) \<Rightarrow> (t, Exited code)
      | (t, c) \<Rightarrow> (t @ fst finalizer, if snd finalizer = Normal then c else snd finalizer))"

text \<open>
  The engine decides each call of one session: the flag says whether the call resolves.
  \<open>images_settle\<close> is false when the image wait rejects (its 10 s timeout). \<open>page\<close> is
  the document as rendered when the measurement runs.
\<close>

record engine =
  launch_ok :: bool
  newPage_ok :: bool
  setViewport_ok :: bool
  setContent_ok :: bool
  emulateMedia_ok :: bool
  images_settle :: bool
  fonts_ok :: bool
  evaluate_ok :: bool
  page :: element
  resize_ok :: bool
  pdf_ok :: bool
  close_ok :: bool

section \<open>generateExactPdf\<close>

text \<open>\<^verbatim>\<open>page.evaluate\<close> of the measurement: \<open>None\<close> when the call rejects.\<close>

definition measured :: "engine \<Rightarrow> int option" where
  "measured e = (if evaluate_ok e then contentHeight (page e) else None)"

text \<open>\<^verbatim>\<open>px / 96\<close>\<close>

definition pxToInches :: "int \<Rightarrow> js_quotient" where
  "pxToInches px = Divided px 96"

text \<open>From the measurement to \<^verbatim>\<open>process.exit(0)\<close>.\<close>

definition export_steps :: "args \<Rightarrow> engine \<Rightarrow> int option \<Rightarrow> bool \<Rightarrow> run" where
  "export_steps a e width mobile =
     (case measured e of
        None \<Rightarrow> call Measure False
      | Some height \<Rightarrow>
          block
            [call Measure True,
             call (SetViewport width height 2 mobile) (resize_ok e),
             call (Pdf (outputPath a) (map_option pxToInches width) (pxToInches height))
               (pdf_ok e),
             does LogSuccess,
             exits 0])"

text \<open>From \<^verbatim>\<open>page.setContent\<close> to the settle delay.\<close>

definition load_steps :: "engine \<Rightarrow> string \<Rightarrow> run" where
  "load_steps e html =
     block
       [call (SetContent (JStr html)) (setContent_ok e),
        call EmulateMediaType (emulateMedia_ok e),
        catch_with (call (WaitForImages 10000) (images_settle e)) (does LogImagesTimeout),
        call FontsReady (fonts_ok e),
        does (Delay 500)]"

text \<open>The body of the \<^verbatim>\<open>try\<close> block.\<close>

definition try_body :: "args \<Rightarrow> engine \<Rightarrow> run" where
  "try_body a e =
     block
       [call Launch (launch_ok e),
        call NewPage (newPage_ok e),
        call (SetViewport (viewportWidth a) 800 2 (isMobile a)) (setViewport_ok e),
        (case normalise (pdfTitle a) (htmlContent a) of
           None \<Rightarrow> ([], Threw)
         | Some html \<Rightarrow>
             block [load_steps e html, export_steps a e (viewportWidth a) (isMobile a)])]"

text \<open>\<^verbatim>\<open>console.error(...); process.exit(1);\<close>\<close>

definition catch_handler :: run where
  "catch_handler = block [does LogError, exits 1]"

text \<open>\<^verbatim>\<open>if (browser) { await browser.close(); }\<close>: \<open>browser\<close> is set once the launch resolved.\<close>

definition finally_block :: "engine \<Rightarrow> run" where
  "finally_block e = (if launch_ok e then call BrowserClose (close_ok e) else ([], Normal))"

text \<open>
  How the process of a script ends: by \<^verbatim>\<open>process.exit\<close>, or the promise of the async
  function settles with nobody awaiting it: resolved, or rejected with no handler in the
  script (what happens then is the runtime's policy for unhandled rejections).
\<close>

datatype ending = ProcessExited int | Resolved | UnhandledRejection

fun ending_of :: "completion \<Rightarrow> ending" where
  "ending_of Normal = Resolved"
| "ending_of Threw = UnhandledRejection"
| "ending_of (Exited code) = ProcessExited code"

text \<open>
  The whole function. \<^verbatim>\<open>JSON.parse\<close> and the four field reads come before the \<^verbatim>\<open>try\<close>.
\<close>

definition generateExactPdf :: "cli_arg \<Rightarrow> engine \<Rightarrow> event list \<times> ending" where
  "generateExactPdf argv e =
     (case argv of
        Malformed \<Rightarrow> ([], UnhandledRejection)
      | NullLiteral \<Rightarrow> ([], UnhandledRejection)
      | Parsed a \<Rightarrow>
          (let r = try_catch_finally (try_body a e) catch_handler (finally_block e)
           in (fst r, ending_of (snd r))))"

section \<open>generatePdf (testpdf.js)\<close>





section \<open>What the caller of the script observes\<close>





section \<open>Concrete sessions\<close>

text \<open>A computed style with the given \<open>display\<close> and \<open>margin-bottom\<close>, nothing else set.\<close>

definition plain :: "string \<Rightarrow> string \<Rightarrow> cstyle" where
  "plain d m =
     \<lparr>display = d, visibility = ''visible'', opacity = ''1'', backgroundImage = ''none'',
      marginBottom = m\<rparr>"

text \<open>The head that the normalisation yields: the title and the viewport tag, not displayed.\<close>

definition headOf :: "string \<Rightarrow> child" where
  "headOf title =
     Child (Element ''HEAD'' (plain ''none'' ''0px'') 0 False
       [Child (Element ''TITLE'' (plain ''none'' ''0px'') 0 False [Text title]),
        Child (Element ''META'' (plain ''none'' ''0px'') 0 False [])])"

text \<open>\<^verbatim>\<open><p>Hello</p>\<close> in the document shell, with the default 8px body margin.\<close>

definition helloPage :: element where
  "helloPage =
     Element ''HTML'' (plain ''block'' ''0px'') 50 False
       [headOf ''Custom View'',
        Child (Element ''BODY'' (plain ''block'' ''8px'') 34 False
          [Child (Element ''P'' (plain ''block'' ''16px'') 34 False [Text ''Hello''])])]"

definition okEngine :: engine where
  "okEngine =
     \<lparr>launch_ok = True, newPage_ok = True, setViewport_ok = True, setContent_ok = True,
      emulateMedia_ok = True, images_settle = True, fonts_ok = True, evaluate_ok = True,
      page = helloPage, resize_ok = True, pdf_ok = True, close_ok = True\<rparr>"

definition helloArgs :: "jsval \<Rightarrow> jsval \<Rightarrow> args" where
  "helloArgs dw vt =
     \<lparr>htmlContent = JStr ''<p>Hello</p>'', outputPath = JStr ''out.pdf'', deviceWidth = dw,
      viewType = vt\<rparr>"

text \<open>
  \<^verbatim>\<open><style>body{padding:1px}</style><div style="display:none">x</div>\<close> as rendered: the
  body box is 2 pixels high below its 8 pixel margin, the root box ends 8 pixels further
  down. Elements that are not displayed have an all-zero rectangle.
\<close>

definition hiddenBodyPage :: element where
  "hiddenBodyPage =
     Element ''HTML'' (plain ''block'' ''0px'') 18 False
       [headOf ''Custom View'',
        Child (Element ''BODY'' (plain ''block'' ''8px'') 10 False
          [Child (Element ''STYLE'' (plain ''none'' ''0px'') 0 False
             [Text ''body{padding:1px}'']),
           Child (Element ''DIV'' (plain ''none'' ''0px'') 0 False [Text ''x''])])]"

text \<open>A document whose root element is not displayed.\<close>

definition allHiddenPage :: element where
  "allHiddenPage =
     Element ''HTML'' (plain ''none'' ''0px'') 0 False
       [headOf ''Custom View'',
        Child (Element ''BODY'' (plain ''none'' ''8px'') 0 False
          [Child (Element ''DIV'' (plain ''none'' ''0px'') 0 False [Text ''x''])])]"







text \<open>A fragment that brings its own head and two viewport tags, but no root tag.\<close>

definition headedFragment :: string where
  \<open>headedFragment =
     ''<head><meta name="viewport" content="width=1"><meta name="viewport" content="width=2"></head><body>hi</body>''\<close>

text \<open>The same request with the width \<^verbatim>\<open>9007199254740993\<close>, that is \<open>2^53 + 1\<close>.\<close>

definition roundedWidthArgs :: args where
  "roundedWidthArgs = helloArgs (json_number 9007199254740993) JUndefined"

text \<open>The same session, with the image wait running into its timeout.\<close>

definition slowImagesEngine :: engine where
  "slowImagesEngine = okEngine\<lparr>images_settle := False\<rparr>"

section \<open>Reading traces\<close>

text \<open>\<open>x\<close> occurs in the trace and \<open>y\<close> occurs somewhere after the first \<open>x\<close>.\<close>

definition precedes :: "event \<Rightarrow> event \<Rightarrow> event list \<Rightarrow> bool" where
  "precedes x y tr = (y \<in> set (dropWhile (\<lambda>ev. ev \<noteq> x) tr))"

text \<open>The calls of a session from the launch to the settle delay, when none of them fails.\<close>

definition loading :: "args \<Rightarrow> engine \<Rightarrow> string \<Rightarrow> event list" where
  "loading a e s =
     [Launch, NewPage, SetViewport (viewportWidth a) 800 2 (isMobile a),
      SetContent (JStr (finalHtmlContent (pdfTitle a) s)), EmulateMediaType,
      WaitForImages 10000]
     @ (if images_settle e then [] else [LogImagesTimeout])
     @ [FontsReady, Delay 500]"

section \<open>Width selection\<close>

lemma deviceWidth_of_600: "deviceWidth_of a = JNum 600 \<longleftrightarrow> deviceWidth a = JNum 600"
  by (cases "deviceWidth a") (auto simp: deviceWidth_of_def js_or_def)

lemma parseInt_600_string: "parseInt (JStr ''600'') = Some 600"
  by (simp add: parseInt_def parseInt10_def js_whitespace_def is_digit_def digits_value_def
      digit_val_def)

lemma parseInt_610: "parseInt (JNum 610) = Some 610"
  by (simp add: parseInt_def num_to_string_def magnitude_to_string_def digits_of.simps
      digit_char_def parseInt10_def js_whitespace_def is_digit_def digits_value_def
      digit_val_def)

text \<open>
  C10. With no \<open>deviceWidth\<close> and \<open>viewType\<close> absent or \<open>'desktop'\<close> (arguments \<open>a\<close>),
  the default 610 differs from 600, so the custom branch is taken: width 610, title
  \<open>Custom View PDF\<close>. For any arguments \<open>b\<close>, the desktop branch is taken exactly when the
  view type is not mobile and the caller sent the number 600. With the string \<open>"600"\<close>
  (arguments \<open>c\<close>, not mobile) the custom branch is taken, with width 600.
\<close>

theorem default_width_selects_custom:
  assumes "deviceWidth a = JUndefined"
    and "viewType a = JUndefined \<or> viewType a = JStr ''desktop''"
    and "deviceWidth c = JStr ''600''"
    and "viewType_of c \<noteq> JStr ''mobile''"
  shows "deviceWidth_of a = JNum 610
    \<and> select_branch a = CustomBranch
    \<and> viewportWidth a = Some 610
    \<and> pdfTitle a = ''Custom View PDF''
    \<and> (select_branch b = DesktopBranch
          \<longleftrightarrow> viewType_of b \<noteq> JStr ''mobile'' \<and> deviceWidth b = JNum 600)
    \<and> (select_branch b = DesktopBranch
          \<longrightarrow> viewportWidth b = Some 600 \<and> pdfTitle b = ''Desktop View PDF'')
    \<and> select_branch c = CustomBranch
    \<and> viewportWidth c = Some 600
    \<and> pdfTitle c = ''Custom View PDF''"
proof -
  have dw: "deviceWidth_of a = JNum 610"
    using assms(1) by (simp add: deviceWidth_of_def js_or_def)
  have vt: "viewType_of a \<noteq> JStr ''mobile''"
    using assms(2) by (auto simp: viewType_of_def js_or_def)
  have br: "select_branch a = CustomBranch"
    using dw vt by (simp add: select_branch_def defaultDesktopWidth_def)
  have w: "viewportWidth a = Some 610"
    using br dw by (simp add: viewportWidth_def parseInt_610)
  have t: "pdfTitle a = ''Custom View PDF''"
    using br by (simp add: pdfTitle_def)
  have desk: "select_branch b = DesktopBranch
      \<longleftrightarrow> viewType_of b \<noteq> JStr ''mobile'' \<and> deviceWidth b = JNum 600"
    using deviceWidth_of_600 [of b] by (simp add: select_branch_def defaultDesktopWidth_def)
  have desk2: "select_branch b = DesktopBranch
      \<longrightarrow> viewportWidth b = Some 600 \<and> pdfTitle b = ''Desktop View PDF''"
    by (simp add: viewportWidth_def pdfTitle_def defaultDesktopWidth_def)
  have dwc: "deviceWidth_of c = JStr ''600''"
    using assms(3) by (simp add: deviceWidth_of_def js_or_def)
  have brc: "select_branch c = CustomBranch"
    using dwc assms(4) by (simp add: select_branch_def)
  have wc: "viewportWidth c = Some 600"
    using brc dwc by (simp add: viewportWidth_def parseInt_600_string)
  have tc: "pdfTitle c = ''Custom View PDF''"
    using brc by (simp add: pdfTitle_def)
  show ?thesis
    using dw br w t desk desk2 brc wc tc by blast
qed

theorem default_width_selects_custom_witness:
  "select_branch (helloArgs JUndefined JUndefined) = CustomBranch
    \<and> viewportWidth (helloArgs JUndefined JUndefined) = Some 610
    \<and> pdfTitle (helloArgs JUndefined JUndefined) = ''Custom View PDF''
    \<and> select_branch (helloArgs (JNum 600) (JStr ''desktop'')) = DesktopBranch
    \<and> viewportWidth (helloArgs (JNum 600) (JStr ''desktop'')) = Some 600
    \<and> select_branch (helloArgs (JStr ''600'') (JStr ''desktop'')) = CustomBranch
    \<and> viewportWidth (helloArgs (JStr ''600'') (JStr ''desktop'')) = Some 600"
  using default_width_selects_custom
    [of "helloArgs JUndefined JUndefined" "helloArgs (JStr ''600'') (JStr ''desktop'')"
        "helloArgs (JNum 600) (JStr ''desktop'')"]
  by (simp add: helloArgs_def viewType_of_def js_or_def)

section \<open>Integers survive the round trip through their decimal digits\<close>

lemma below_ten: "d < (10::nat) \<Longrightarrow>
    d = 0 \<or> d = 1 \<or> d = 2 \<or> d = 3 \<or> d = 4 \<or> d = 5 \<or> d = 6 \<or> d = 7 \<or> d = 8 \<or> d = 9"
  by arith

lemma digit_char_props:
  assumes "d < 10"
  shows "is_digit (digit_char d)" and "digit_val (digit_char d) = d"
    and "\<not> js_whitespace (digit_char d)"
    and "digit_char d \<noteq> CHR ''-''" and "digit_char d \<noteq> CHR ''+''"
  using below_ten [OF assms]
  by (auto simp: is_digit_def digit_char_def digit_val_def js_whitespace_def)

lemma digits_value_snoc: "digits_value (ds @ [c]) = 10 * digits_value ds + digit_val c"
  by (simp add: digits_value_def)

lemma digits_of_props:
  "0 \<le> n \<Longrightarrow>
     digits_of n \<noteq> [] \<and> (\<forall>c\<in>set (digits_of n). is_digit c)
       \<and> int (digits_value (digits_of n)) = n
       \<and> \<not> js_whitespace (hd (digits_of n))
       \<and> hd (digits_of n) \<noteq> CHR ''-'' \<and> hd (digits_of n) \<noteq> CHR ''+''"
proof (induction n rule: digits_of.induct)
  case (1 n)
  show ?case
  proof (cases "n < 10")
    case True
    then have d: "nat n < 10"
      using 1(2) by simp
    have eq: "digits_of n = [digit_char (nat n)]"
      using True by (simp add: digits_of.simps)
    show ?thesis
      using digit_char_props [OF d] 1(2) by (simp add: eq digits_value_def)
  next
    case False
    then have eq: "digits_of n = digits_of (n div 10) @ [digit_char (nat (n mod 10))]"
      by (subst digits_of.simps) simp
    have ih: "digits_of (n div 10) \<noteq> [] \<and> (\<forall>c\<in>set (digits_of (n div 10)). is_digit c)
       \<and> int (digits_value (digits_of (n div 10))) = n div 10
       \<and> \<not> js_whitespace (hd (digits_of (n div 10)))
       \<and> hd (digits_of (n div 10)) \<noteq> CHR ''-'' \<and> hd (digits_of (n div 10)) \<noteq> CHR ''+''"
      using 1(1) [OF False] 1(2) by simp
    have d: "nat (n mod 10) < 10"
      using 1(2) by simp
    have v: "int (digits_value (digits_of n)) = n"
      using ih digit_char_props(2) [OF d] 1(2) by (simp add: eq digits_value_snoc)
    show ?thesis
      using ih digit_char_props(1) [OF d] v by (simp add: eq)
  qed
qed

lemma parseInt10_digits:
  assumes "ds \<noteq> []" and "\<forall>c\<in>set ds. is_digit c" and "\<not> js_whitespace (hd ds)"
    and "hd ds \<noteq> CHR ''-''" and "hd ds \<noteq> CHR ''+''"
  shows "parseInt10 ds = Some (int (digits_value ds))"
proof -
  have a: "dropWhile js_whitespace ds = ds"
    using assms(1,3) by (cases ds) simp_all
  have b: "takeWhile is_digit ds = ds"
    using assms(2) by (simp add: takeWhile_eq_all_conv)
  show ?thesis
    using assms(1,4,5) by (simp add: parseInt10_def a b Let_def)
qed

lemma parseInt_plain_decimal:
  assumes "0 \<le> W" and "W < 10 ^ 21"
  shows "parseInt (JNum W) = Some W"
  using assms digits_of_props [of W] parseInt10_digits [of "digits_of W"]
  by (simp add: parseInt_def num_to_string_def magnitude_to_string_def)

section \<open>The shape of a run\<close>

lemma block_single: "block [r] = r"
  by (cases r; cases "snd r") auto

lemma block_pair: "block [r1, r2] = (if snd r1 = Normal then (fst r1 @ fst r2, snd r2) else r1)"
  by (cases r1; cases "snd r1"; cases r2; cases "snd r2") auto

lemmas body_defs = generateExactPdf_def try_catch_finally_def try_body_def load_steps_def
  export_steps_def call_def does_def exits_def catch_handler_def finally_block_def

lemma try_prefix: "prefix (fst body) (fst (try_catch_finally body h f))"
proof (cases body)
  case (Pair t c)
  show ?thesis
  proof (cases c)
    case Normal
    then show ?thesis
      using Pair by (simp add: try_catch_finally_def)
  next
    case Threw
    then show ?thesis
      using Pair by (cases h; cases "snd h") (simp_all add: try_catch_finally_def)
  next
    case (Exited k)
    then show ?thesis
      using Pair by (simp add: try_catch_finally_def)
  qed
qed

lemma body_prefix: "prefix (fst (try_body a e)) (fst (generateExactPdf (Parsed a) e))"
  using try_prefix [of "try_body a e" catch_handler "finally_block e"]
  by (simp add: generateExactPdf_def Let_def)

lemma export_starts_with_Measure: "\<exists>t. fst (export_steps a e w m) = Measure # t"
  by (cases "measured e") (simp_all add: export_steps_def call_def)

lemma try_body_reaches_measurement:
  assumes "launch_ok e" and "newPage_ok e" and "setViewport_ok e" and "htmlContent a = JStr s"
    and "setContent_ok e" and "emulateMedia_ok e" and "fonts_ok e"
  shows "try_body a e =
     (loading a e s @ fst (export_steps a e (viewportWidth a) (isMobile a)),
      snd (export_steps a e (viewportWidth a) (isMobile a)))"
  using assms
  by (simp add: try_body_def load_steps_def call_def does_def normalise_def loading_def
      block_single)

lemma Measure_only_after_loading:
  assumes "Measure \<in> set (fst (generateExactPdf (Parsed a) e))"
  shows "launch_ok e \<and> newPage_ok e \<and> setViewport_ok e
    \<and> normalise (pdfTitle a) (htmlContent a) \<noteq> None
    \<and> setContent_ok e \<and> emulateMedia_ok e \<and> fonts_ok e"
  using assms unfolding body_defs
  by (auto split: option.splits if_splits simp: Let_def)

lemma normalise_string: "normalise t v \<noteq> None \<longleftrightarrow> (\<exists>s. v = JStr s)"
  by (cases v) (simp_all add: normalise_def)

lemma successful_run:
  assumes "launch_ok e" and "newPage_ok e" and "setViewport_ok e" and "htmlContent a = JStr s"
    and "setContent_ok e" and "emulateMedia_ok e" and "fonts_ok e" and "measured e = Some m"
    and "resize_ok e" and "pdf_ok e"
  shows "generateExactPdf (Parsed a) e =
     (loading a e s @
        [Measure, SetViewport (viewportWidth a) m 2 (isMobile a),
         Pdf (outputPath a) (map_option pxToInches (viewportWidth a)) (pxToInches m),
         LogSuccess, ProcessExit 0],
      ProcessExited 0)"
  using assms
  by (simp add: generateExactPdf_def try_body_reaches_measurement [of e a s] export_steps_def
      call_def does_def exits_def try_catch_finally_def)

lemma success_iff:
  "snd (generateExactPdf argv e) = ProcessExited 0 \<longleftrightarrow>
     (\<exists>a s. argv = Parsed a \<and> htmlContent a = JStr s \<and> launch_ok e \<and> newPage_ok e
        \<and> setViewport_ok e \<and> setContent_ok e \<and> emulateMedia_ok e \<and> fonts_ok e
        \<and> measured e \<noteq> None \<and> resize_ok e \<and> pdf_ok e)"
proof (cases argv)
  case (Parsed a)
  have "snd (generateExactPdf (Parsed a) e) = ProcessExited 0 \<longleftrightarrow>
     (normalise (pdfTitle a) (htmlContent a) \<noteq> None \<and> launch_ok e \<and> newPage_ok e
        \<and> setViewport_ok e \<and> setContent_ok e \<and> emulateMedia_ok e \<and> fonts_ok e
        \<and> measured e \<noteq> None \<and> resize_ok e \<and> pdf_ok e)"
    unfolding body_defs
    by (auto split: option.splits if_splits simp: Let_def)
  then show ?thesis
    using Parsed normalise_string [of "pdfTitle a" "htmlContent a"] by simp
qed (simp_all add: generateExactPdf_def)

lemma Pdf_event:
  assumes "Pdf p w h \<in> set (fst (generateExactPdf (Parsed a) e))"
  shows "p = outputPath a \<and> w = map_option pxToInches (viewportWidth a)
     \<and> map_option pxToInches (measured e) = Some h"
  using assms unfolding body_defs
  by (auto split: option.splits if_splits simp: Let_def)

lemma SetViewport_event:
  assumes "SetViewport w h s m \<in> set (fst (generateExactPdf (Parsed a) e))"
  shows "w = viewportWidth a \<and> m = isMobile a"
  using assms unfolding body_defs
  by (auto split: option.splits if_splits simp: Let_def)

lemma first_SetViewport:
  assumes "launch_ok e" and "newPage_ok e"
  shows "SetViewport (viewportWidth a) 800 2 (isMobile a)
           \<in> set (fst (generateExactPdf (Parsed a) e))"
proof -
  have "prefix [Launch, NewPage, SetViewport (viewportWidth a) 800 2 (isMobile a)]
          (fst (try_body a e))"
    using assms by (simp add: try_body_def call_def)
  then have "prefix [Launch, NewPage, SetViewport (viewportWidth a) 800 2 (isMobile a)]
          (fst (generateExactPdf (Parsed a) e))"
    using body_prefix [of a e] by (rule prefix_order.trans)
  then show ?thesis
    by (auto simp: prefix_def)
qed

lemma close_unreachable: "BrowserClose \<notin> set (fst (generateExactPdf argv e))"
  unfolding body_defs
  by (auto split: option.splits if_splits cli_arg.splits simp: Let_def)

subsection \<open>The image wait\<close>

lemma measured_images: "measured (e\<lparr>images_settle := b\<rparr>) = measured e"
  by (simp add: measured_def)

lemma load_steps_image_wait:
  "snd (load_steps (e\<lparr>images_settle := False\<rparr>) h)
     = snd (load_steps (e\<lparr>images_settle := True\<rparr>) h)"
  "filter (\<lambda>ev. ev \<noteq> LogImagesTimeout) (fst (load_steps (e\<lparr>images_settle := False\<rparr>) h))
     = fst (load_steps (e\<lparr>images_settle := True\<rparr>) h)"
  by (simp_all add: load_steps_def call_def does_def)

lemma export_steps_image_wait:
  "export_steps a (e\<lparr>images_settle := b\<rparr>) w m = export_steps a e w m"
  by (simp add: export_steps_def measured_images split: option.splits)

lemma export_steps_no_log:
  "filter (\<lambda>ev. ev \<noteq> LogImagesTimeout) (fst (export_steps a e w m))
     = fst (export_steps a e w m)"
  by (cases "measured e") (simp_all add: export_steps_def call_def does_def exits_def)

lemma try_body_image_wait:
  "snd (try_body a (e\<lparr>images_settle := False\<rparr>))
     = snd (try_body a (e\<lparr>images_settle := True\<rparr>))"
  "filter (\<lambda>ev. ev \<noteq> LogImagesTimeout) (fst (try_body a (e\<lparr>images_settle := False\<rparr>)))
     = fst (try_body a (e\<lparr>images_settle := True\<rparr>))"
  by (simp_all add: try_body_def call_def block_pair load_steps_image_wait
      export_steps_image_wait export_steps_no_log split: option.splits)

lemma try_catch_finally_image_wait:
  assumes "snd b1 = snd b2"
    and "filter (\<lambda>ev. ev \<noteq> LogImagesTimeout) (fst b1) = fst b2"
    and "finally_block e = finally_block e'"
  shows "filter (\<lambda>ev. ev \<noteq> LogImagesTimeout)
           (fst (try_catch_finally b1 catch_handler (finally_block e)))
         = fst (try_catch_finally b2 catch_handler (finally_block e'))"
    and "snd (try_catch_finally b1 catch_handler (finally_block e))
         = snd (try_catch_finally b2 catch_handler (finally_block e'))"
  using assms
  by (cases b1; cases b2; cases "snd b1";
      auto simp: try_catch_finally_def catch_handler_def does_def exits_def finally_block_def
        call_def split: if_splits)+

lemma finally_block_images:
  "finally_block (e\<lparr>images_settle := False\<rparr>) = finally_block (e\<lparr>images_settle := True\<rparr>)"
  by (simp add: finally_block_def)

lemma trace_ignores_image_wait:
  "filter (\<lambda>ev. ev \<noteq> LogImagesTimeout)
       (fst (generateExactPdf argv (e\<lparr>images_settle := False\<rparr>)))
     = fst (generateExactPdf argv (e\<lparr>images_settle := True\<rparr>))"
proof (cases argv)
  case (Parsed a)
  show ?thesis
    using try_catch_finally_image_wait(1) [OF try_body_image_wait finally_block_images]
    by (simp add: generateExactPdf_def Parsed Let_def)
qed (simp_all add: generateExactPdf_def)

lemma ending_ignores_image_wait:
  "snd (generateExactPdf argv (e\<lparr>images_settle := False\<rparr>))
     = snd (generateExactPdf argv (e\<lparr>images_settle := True\<rparr>))"
proof (cases argv)
  case (Parsed a)
  show ?thesis
    using try_catch_finally_image_wait(2) [OF try_body_image_wait finally_block_images]
    by (simp add: generateExactPdf_def Parsed Let_def)
qed (simp_all add: generateExactPdf_def)

lemma timeout_prefix:
  assumes "launch_ok e" and "newPage_ok e" and "setViewport_ok e" and "htmlContent a = JStr s"
    and "setContent_ok e" and "emulateMedia_ok e" and "\<not> images_settle e"
  shows "prefix
     [Launch, NewPage, SetViewport (viewportWidth a) 800 2 (isMobile a),
      SetContent (JStr (finalHtmlContent (pdfTitle a) s)), EmulateMediaType,
      WaitForImages 10000, LogImagesTimeout, FontsReady]
     (fst (generateExactPdf (Parsed a) e))"
proof -
  have "prefix
     [Launch, NewPage, SetViewport (viewportWidth a) 800 2 (isMobile a),
      SetContent (JStr (finalHtmlContent (pdfTitle a) s)), EmulateMediaType,
      WaitForImages 10000, LogImagesTimeout, FontsReady]
     (fst (try_body a e))"
    using assms
    by (simp add: try_body_def load_steps_def call_def does_def normalise_def block_single)
  then show ?thesis
    using body_prefix [of a e] by (rule prefix_order.trans)
qed

subsection \<open>The concrete sessions\<close>

lemma helloPage_height: "contentHeight helloPage = Some 50"
  by (simp add: contentHeight_def measure_elements_def scan_def helloPage_def headOf_def
      plain_def hidden_def hasVisibleContent_def js_trim_def js_whitespace_def
      document_body_def is_body_def marginBottom_px_def parseInt10_def is_digit_def
      digits_value_def digit_val_def)

lemma okEngine_measured: "measured okEngine = Some 50"
  by (simp add: measured_def okEngine_def helloPage_height)

lemma okEngine_flags:
  "launch_ok okEngine" "newPage_ok okEngine" "setViewport_ok okEngine"
  "setContent_ok okEngine" "emulateMedia_ok okEngine" "images_settle okEngine"
  "fonts_ok okEngine" "resize_ok okEngine" "pdf_ok okEngine"
  by (simp_all add: okEngine_def)

lemma slowImagesEngine_flags:
  "launch_ok slowImagesEngine" "newPage_ok slowImagesEngine" "setViewport_ok slowImagesEngine"
  "setContent_ok slowImagesEngine" "emulateMedia_ok slowImagesEngine"
  "\<not> images_settle slowImagesEngine" "fonts_ok slowImagesEngine"
  "resize_ok slowImagesEngine" "pdf_ok slowImagesEngine"
  "measured slowImagesEngine = Some 50"
  by (simp_all add: slowImagesEngine_def okEngine_def measured_def helloPage_height)

lemma helloArgs_fields:
  "htmlContent (helloArgs dw vt) = JStr ''<p>Hello</p>''"
  "outputPath (helloArgs dw vt) = JStr ''out.pdf''"
  "deviceWidth (helloArgs dw vt) = dw"
  "viewType (helloArgs dw vt) = vt"
  by (simp_all add: helloArgs_def)

lemma hello_default_args:
  "viewportWidth (helloArgs JUndefined JUndefined) = Some 610"
  "pdfTitle (helloArgs JUndefined JUndefined) = ''Custom View PDF''"
  "isMobile (helloArgs JUndefined JUndefined) = False"
  by (simp_all add: viewportWidth_def pdfTitle_def isMobile_def select_branch_def helloArgs_def
      viewType_of_def deviceWidth_of_def js_or_def defaultDesktopWidth_def parseInt_610)

lemma hello_run:
  "generateExactPdf (Parsed (helloArgs JUndefined JUndefined)) okEngine =
     ([Launch, NewPage, SetViewport (Some 610) 800 2 False,
       SetContent (JStr (finalHtmlContent ''Custom View PDF'' ''<p>Hello</p>'')),
       EmulateMediaType, WaitForImages 10000, FontsReady, Delay 500, Measure,
       SetViewport (Some 610) 50 2 False,
       Pdf (JStr ''out.pdf'') (Some (Divided 610 96)) (Divided 50 96), LogSuccess, ProcessExit 0],
      ProcessExited 0)"
  using successful_run [of okEngine "helloArgs JUndefined JUndefined" "''<p>Hello</p>''" 50]
  by (simp add: okEngine_flags okEngine_measured helloArgs_fields hello_default_args
      loading_def pxToInches_def)

section \<open>Claims about the session\<close>

text \<open>
  C5. With \<open>viewType = 'mobile'\<close> the viewport width is 360 whatever \<open>deviceWidth\<close> the
  caller sent: every \<open>setViewport\<close> call of the run carries width 360 and the mobile
  flag, and the first of them is made as soon as the browser and the page are there.
\<close>

theorem mobile_width_is_fixed:
  assumes "viewType a = JStr ''mobile''"
  shows "viewportWidth (a\<lparr>deviceWidth := dw\<rparr>) = Some 360
    \<and> (SetViewport w h s m \<in> set (fst (generateExactPdf (Parsed (a\<lparr>deviceWidth := dw\<rparr>)) e))
          \<longrightarrow> w = Some 360 \<and> m)
    \<and> (launch_ok e \<and> newPage_ok e
          \<longrightarrow> SetViewport (Some 360) 800 2 True
                \<in> set (fst (generateExactPdf (Parsed (a\<lparr>deviceWidth := dw\<rparr>)) e)))"
proof -
  let ?a = "a\<lparr>deviceWidth := dw\<rparr>"
  have vt: "viewType_of ?a = JStr ''mobile''"
    using assms by (simp add: viewType_of_def js_or_def)
  have w: "viewportWidth ?a = Some 360"
    using vt by (simp add: viewportWidth_def select_branch_def mobileWidth_def)
  have m: "isMobile ?a"
    using vt by (simp add: isMobile_def)
  show ?thesis
    using w m SetViewport_event [of w h s m ?a e] first_SetViewport [of e ?a] by auto
qed

theorem mobile_width_is_fixed_witness:
  "viewportWidth (helloArgs (JNum 1024) (JStr ''mobile'')) = Some 360
    \<and> SetViewport (Some 360) 800 2 True
        \<in> set (fst (generateExactPdf (Parsed (helloArgs (JNum 1024) (JStr ''mobile''))) okEngine))"
  using mobile_width_is_fixed [of "helloArgs JUndefined (JStr ''mobile'')" "JNum 1024"
      "Some 360" 800 2 True okEngine]
  by (simp add: helloArgs_def okEngine_flags)

text \<open>
  C3. The \<open>close\<close> call sits in the \<open>finally\<close> block, but the \<open>try\<close> block ends with
  \<open>process.exit(0)\<close> and the \<open>catch\<close> block with \<open>process.exit(1)\<close>: the process is gone
  before the \<open>finally\<close> block is entered. No run of \<open>generateExactPdf\<close> closes the
  browser, and the successful run of the example session ends right after the exit call.
\<close>

theorem close_never_runs:
  "BrowserClose \<notin> set (fst (generateExactPdf argv e))
    \<and> generateExactPdf (Parsed (helloArgs JUndefined JUndefined)) okEngine =
       ([Launch, NewPage, SetViewport (Some 610) 800 2 False,
         SetContent (JStr (finalHtmlContent ''Custom View PDF'' ''<p>Hello</p>'')),
         EmulateMediaType, WaitForImages 10000, FontsReady, Delay 500, Measure,
         SetViewport (Some 610) 50 2 False,
         Pdf (JStr ''out.pdf'') (Some (Divided 610 96)) (Divided 50 96), LogSuccess, ProcessExit 0],
        ProcessExited 0)"
  using close_unreachable [of argv e] hello_run by simp


text \<open>
  C7, as stated: the wait for the fonts comes before the wait for the images. In the
  example session it is the other way round.
\<close>

theorem fonts_wait_after_images_wait:
  "precedes (WaitForImages 10000) FontsReady
      (fst (generateExactPdf (Parsed (helloArgs JUndefined JUndefined)) okEngine))
    \<and> \<not> precedes FontsReady (WaitForImages 10000)
      (fst (generateExactPdf (Parsed (helloArgs JUndefined JUndefined)) okEngine))"
  by (simp add: hello_run precedes_def)

text \<open>
  C7, amended. Every run that reaches the measurement begins with: launch, new page,
  initial viewport, loading the normalised markup until the network is idle, the switch to
  screen media, the wait for the images (10 s, with the log line when it times out), the
  wait for the fonts, the 500 ms delay, and then the measurement.
\<close>

theorem waits_in_order:
  assumes "Measure \<in> set (fst (generateExactPdf argv e))"
  shows "\<exists>a s. argv = Parsed a \<and> htmlContent a = JStr s \<and>
     prefix
       ([Launch, NewPage, SetViewport (viewportWidth a) 800 2 (isMobile a),
         SetContent (JStr (finalHtmlContent (pdfTitle a) s)), EmulateMediaType,
         WaitForImages 10000]
        @ (if images_settle e then [] else [LogImagesTimeout])
        @ [FontsReady, Delay 500, Measure])
       (fst (generateExactPdf argv e))"
proof -
  obtain a where a: "argv = Parsed a"
    using assms by (cases argv) (simp_all add: generateExactPdf_def)
  have flags: "launch_ok e \<and> newPage_ok e \<and> setViewport_ok e
      \<and> normalise (pdfTitle a) (htmlContent a) \<noteq> None
      \<and> setContent_ok e \<and> emulateMedia_ok e \<and> fonts_ok e"
    using Measure_only_after_loading assms a by simp
  then obtain s where s: "htmlContent a = JStr s"
    using normalise_string by blast
  obtain t where t: "fst (export_steps a e (viewportWidth a) (isMobile a)) = Measure # t"
    using export_starts_with_Measure by blast
  have body: "fst (try_body a e) = (loading a e s @ [Measure]) @ t"
    using try_body_reaches_measurement [of e a s] flags s t by simp
  have "prefix (loading a e s @ [Measure]) (fst (generateExactPdf argv e))"
    using body_prefix [of a e] unfolding body a using append_prefixD by blast
  then show ?thesis
    using a s by (simp add: loading_def)
qed

theorem waits_in_order_witness:
  "Measure \<in> set (fst (generateExactPdf (Parsed (helloArgs JUndefined JUndefined)) slowImagesEngine))
    \<and> prefix
       [Launch, NewPage, SetViewport (Some 610) 800 2 False,
        SetContent (JStr (finalHtmlContent ''Custom View PDF'' ''<p>Hello</p>'')),
        EmulateMediaType, WaitForImages 10000, LogImagesTimeout, FontsReady, Delay 500, Measure]
       (fst (generateExactPdf (Parsed (helloArgs JUndefined JUndefined)) slowImagesEngine))"
proof -
  have run: "generateExactPdf (Parsed (helloArgs JUndefined JUndefined)) slowImagesEngine =
     (loading (helloArgs JUndefined JUndefined) slowImagesEngine ''<p>Hello</p>'' @
        [Measure, SetViewport (Some 610) 50 2 False,
         Pdf (JStr ''out.pdf'') (Some (pxToInches 610)) (pxToInches 50),
         LogSuccess, ProcessExit 0],
      ProcessExited 0)"
    using successful_run [of slowImagesEngine "helloArgs JUndefined JUndefined"
        "''<p>Hello</p>''" 50]
    by (simp add: slowImagesEngine_flags helloArgs_fields hello_default_args)
  then have m: "Measure \<in> set (fst (generateExactPdf (Parsed (helloArgs JUndefined JUndefined))
      slowImagesEngine))"
    by simp
  show ?thesis
    using m waits_in_order [OF m]
    by (auto simp: slowImagesEngine_flags helloArgs_fields hello_default_args)
qed

text \<open>
  C8. When the run has reached the image wait and the wait times out, the rejection is
  caught on the spot: the log line is written (with \<open>console.log\<close>, not as an error) and
  the next call, the wait for the fonts, is made; the measurement follows exactly when that
  wait resolves. Timing out changes neither how the run ends nor, the log line apart, what
  it does. It is the only failure that is survived: a run (any arguments \<open>argv'\<close>, any
  engine \<open>e'\<close>) ends with exit code 0 exactly when the argument parses, the markup is a
  string and every call other than the image wait resolves.
\<close>

theorem image_timeout_is_not_fatal:
  assumes "launch_ok e" and "newPage_ok e" and "setViewport_ok e" and "htmlContent a = JStr s"
    and "setContent_ok e" and "emulateMedia_ok e"
    and "\<not> images_settle e"
  shows "prefix
       [Launch, NewPage, SetViewport (viewportWidth a) 800 2 (isMobile a),
        SetContent (JStr (finalHtmlContent (pdfTitle a) s)), EmulateMediaType,
        WaitForImages 10000, LogImagesTimeout, FontsReady]
       (fst (generateExactPdf (Parsed a) e))
    \<and> (Measure \<in> set (fst (generateExactPdf (Parsed a) e)) \<longleftrightarrow> fonts_ok e)
    \<and> snd (generateExactPdf (Parsed a) e)
        = snd (generateExactPdf (Parsed a) (e\<lparr>images_settle := True\<rparr>))
    \<and> filter (\<lambda>ev. ev \<noteq> LogImagesTimeout) (fst (generateExactPdf (Parsed a) e))
        = fst (generateExactPdf (Parsed a) (e\<lparr>images_settle := True\<rparr>))
    \<and> (snd (generateExactPdf argv' e') = ProcessExited 0 \<longleftrightarrow>
         (\<exists>a' s'. argv' = Parsed a' \<and> htmlContent a' = JStr s' \<and> launch_ok e'
            \<and> newPage_ok e' \<and> setViewport_ok e' \<and> setContent_ok e' \<and> emulateMedia_ok e'
            \<and> fonts_ok e' \<and> measured e' \<noteq> None \<and> resize_ok e' \<and> pdf_ok e'))"
proof -
  have e: "e\<lparr>images_settle := False\<rparr> = e"
    using assms(7) by simp
  have reached: "Measure \<in> set (fst (generateExactPdf (Parsed a) e))" if "fonts_ok e"
  proof -
    obtain t where t: "fst (export_steps a e (viewportWidth a) (isMobile a)) = Measure # t"
      using export_starts_with_Measure by blast
    have "fst (try_body a e) = loading a e s @ Measure # t"
      using try_body_reaches_measurement [of e a s] assms that t by simp
    then have "Measure \<in> set (fst (try_body a e))"
      by simp
    then show ?thesis
      using body_prefix [of a e] set_mono_prefix by blast
  qed
  have only: "fonts_ok e" if "Measure \<in> set (fst (generateExactPdf (Parsed a) e))"
    using Measure_only_after_loading [OF that] by simp
  show ?thesis
    using timeout_prefix [OF assms] reached only
      ending_ignores_image_wait [of "Parsed a" e] trace_ignores_image_wait [of "Parsed a" e]
      success_iff [of argv' e']
    unfolding e by blast
qed

theorem image_timeout_is_not_fatal_witness:
  "prefix
       [Launch, NewPage, SetViewport (Some 610) 800 2 False,
        SetContent (JStr (finalHtmlContent ''Custom View PDF'' ''<p>Hello</p>'')),
        EmulateMediaType, WaitForImages 10000, LogImagesTimeout, FontsReady]
       (fst (generateExactPdf (Parsed (helloArgs JUndefined JUndefined)) slowImagesEngine))
    \<and> Measure \<in> set (fst (generateExactPdf (Parsed (helloArgs JUndefined JUndefined))
          slowImagesEngine))
    \<and> snd (generateExactPdf (Parsed (helloArgs JUndefined JUndefined)) slowImagesEngine)
        = ProcessExited 0"
  using image_timeout_is_not_fatal [of slowImagesEngine "helloArgs JUndefined JUndefined"
      "''<p>Hello</p>''" "Parsed (helloArgs JUndefined JUndefined)" slowImagesEngine]
  by (auto simp: slowImagesEngine_flags helloArgs_fields hello_default_args)

subsection \<open>Integer literals as doubles\<close>

lemma bit_length_bound: "0 \<le> n \<Longrightarrow> n < 2 ^ k \<Longrightarrow> bit_length n \<le> k"
proof (induction k arbitrary: n)
  case 0
  then have "n = 0" by simp
  then show ?case by (simp add: bit_length.simps)
next
  case (Suc k)
  show ?case
  proof (cases "n \<le> 0")
    case True
    then show ?thesis by (simp add: bit_length.simps)
  next
    case False
    have "n div 2 < 2 ^ k"
      using Suc.prems(2) by simp
    moreover have "0 \<le> n div 2"
      using Suc.prems(1) by simp
    ultimately have "bit_length (n div 2) \<le> k"
      by (rule Suc.IH [rotated])
    then show ?thesis
      using False by (subst bit_length.simps) simp
  qed
qed

lemma bl53: "bit_length 9007199254740992 = 54"
  by code_simp

lemma bl53': "bit_length 9007199254740993 = 54"
  by code_simp

lemma nearest_double_two_53: "nearest_double 9007199254740992 = 9007199254740992"
  by (simp add: nearest_double_def bl53 Let_def)

lemma nearest_double_rounds: "nearest_double 9007199254740993 = 9007199254740992"
  by (simp add: nearest_double_def bl53' Let_def)

lemma nearest_double_safe:
  assumes "0 \<le> n" and "n \<le> 2 ^ 53"
  shows "nearest_double n = n"
proof (cases "n = 2 ^ 53")
  case True
  then show ?thesis
    using nearest_double_two_53 by simp
next
  case False
  then have "n < 2 ^ 53"
    using assms(2) by simp
  then have "bit_length n \<le> 53"
    using assms(1) bit_length_bound by blast
  then show ?thesis
    using assms(1) by (simp add: nearest_double_def Let_def)
qed

text \<open>
  C1, as stated, at the width \<open>2^53 + 1\<close>. The literal \<open>9007199254740993\<close> is no double:
  the script receives \<open>9007199254740992\<close>, takes the custom branch and asks for a page
  whose width is the quotient of that number, not of the supplied one, by 96 (as numbers,
  \<open>93824992236885.328125\<close> where \<open>W/96\<close> is \<open>93824992236885.34375\<close>).
\<close>

theorem supplied_width_is_rounded:
  "deviceWidth roundedWidthArgs = json_number 9007199254740993
    \<and> viewType roundedWidthArgs = JUndefined
    \<and> select_branch roundedWidthArgs = CustomBranch
    \<and> Pdf (JStr ''out.pdf'') (Some (Divided 9007199254740992 96)) (Divided 50 96)
        \<in> set (fst (generateExactPdf (Parsed roundedWidthArgs) okEngine))
    \<and> Some (Divided 9007199254740992 96) \<noteq> Some (pxToInches 9007199254740993)"
proof -
  have f: "htmlContent roundedWidthArgs = JStr ''<p>Hello</p>''"
    "outputPath roundedWidthArgs = JStr ''out.pdf''"
    "deviceWidth roundedWidthArgs = json_number 9007199254740993"
    "viewType roundedWidthArgs = JUndefined"
    by (simp_all add: roundedWidthArgs_def helloArgs_def)
  have dw: "deviceWidth_of roundedWidthArgs = JNum 9007199254740992"
    by (simp add: deviceWidth_of_def js_or_def f json_number_def nearest_double_rounds)
  have br: "select_branch roundedWidthArgs = CustomBranch"
    by (simp add: select_branch_def dw viewType_of_def js_or_def f defaultDesktopWidth_def)
  have w: "viewportWidth roundedWidthArgs = Some 9007199254740992"
    using parseInt_plain_decimal [of 9007199254740992]
    by (simp add: viewportWidth_def br dw)
  have "generateExactPdf (Parsed roundedWidthArgs) okEngine =
     (loading roundedWidthArgs okEngine ''<p>Hello</p>'' @
        [Measure,
         SetViewport (viewportWidth roundedWidthArgs) 50 2 (isMobile roundedWidthArgs),
         Pdf (outputPath roundedWidthArgs)
           (map_option pxToInches (viewportWidth roundedWidthArgs)) (pxToInches 50),
         LogSuccess, ProcessExit 0],
      ProcessExited 0)"
    using successful_run [of okEngine roundedWidthArgs "''<p>Hello</p>''" 50]
    by (simp add: okEngine_flags okEngine_measured f)
  then have "Pdf (JStr ''out.pdf'') (Some (Divided 9007199254740992 96)) (Divided 50 96)
      \<in> set (fst (generateExactPdf (Parsed roundedWidthArgs) okEngine))"
    by (simp add: w f pxToInches_def)
  then show ?thesis
    using f br by (simp add: pxToInches_def)
qed

text \<open>
  C1, amended. For a request that is not mobile, with a supplied integer width \<open>W\<close>,
  \<open>0 < W \<le> 2^53\<close> and \<open>W \<noteq> 600\<close>, the custom branch is taken; every export call of the run
  asks for a page whose width is the quotient of \<open>W\<close> by 96 and whose height is the quotient
  of the measured content height by 96, in inches; and the export call is made when every
  call before it resolves.
\<close>

theorem custom_width_page_size:
  assumes "viewType_of a \<noteq> JStr ''mobile''" and "deviceWidth a = json_number W"
    and "0 < W" and "W \<noteq> 600" and "W \<le> 2 ^ 53"
  shows "select_branch a = CustomBranch
    \<and> (Pdf p w h \<in> set (fst (generateExactPdf (Parsed a) e))
         \<longrightarrow> w = Some (Divided W 96)
             \<and> (\<exists>px. measured e = Some px \<and> h = Divided px 96))
    \<and> (launch_ok e \<and> newPage_ok e \<and> setViewport_ok e \<and> htmlContent a = JStr s
         \<and> setContent_ok e \<and> emulateMedia_ok e \<and> fonts_ok e \<and> measured e = Some m
         \<and> resize_ok e \<and> pdf_ok e
         \<longrightarrow> Pdf (outputPath a) (Some (Divided W 96)) (Divided m 96)
               \<in> set (fst (generateExactPdf (Parsed a) e)))"
proof -
  have num: "deviceWidth a = JNum W"
    using assms(2,3,5) nearest_double_safe [of W] by (simp add: json_number_def)
  have dw: "deviceWidth_of a = JNum W"
    using num assms(3) by (simp add: deviceWidth_of_def js_or_def)
  have br: "select_branch a = CustomBranch"
    using assms(1,4) dw by (simp add: select_branch_def defaultDesktopWidth_def)
  have "W < 10 ^ 21"
    using assms(5) by (rule order_le_less_trans) simp
  then have vw: "viewportWidth a = Some W"
    using br dw parseInt_plain_decimal [of W] assms(3) by (simp add: viewportWidth_def)
  have size: "w = Some (Divided W 96) \<and> (\<exists>px. measured e = Some px \<and> h = Divided px 96)"
    if "Pdf p w h \<in> set (fst (generateExactPdf (Parsed a) e))"
    using Pdf_event [OF that] vw by (auto simp: pxToInches_def)
  have made: "Pdf (outputPath a) (Some (Divided W 96)) (Divided m 96)
      \<in> set (fst (generateExactPdf (Parsed a) e))"
    if "launch_ok e" "newPage_ok e" "setViewport_ok e" "htmlContent a = JStr s"
      "setContent_ok e" "emulateMedia_ok e" "fonts_ok e" "measured e = Some m"
      "resize_ok e" "pdf_ok e"
    using successful_run [OF that] vw by (simp add: pxToInches_def)
  show ?thesis
    using br size made by blast
qed

theorem custom_width_page_size_witness:
  "json_number 700 = JNum 700
    \<and> select_branch (helloArgs (json_number 700) JUndefined) = CustomBranch
    \<and> Pdf (JStr ''out.pdf'') (Some (Divided 700 96)) (Divided 50 96)
        \<in> set (fst (generateExactPdf (Parsed (helloArgs (json_number 700) JUndefined)) okEngine))"
proof -
  have n: "json_number 700 = JNum 700"
    using nearest_double_safe [of 700] by (simp add: json_number_def)
  show ?thesis
    using custom_width_page_size [of "helloArgs (json_number 700) JUndefined" 700
      "JStr ''out.pdf''" "Some (Divided 700 96)" "Divided 50 96" okEngine "''<p>Hello</p>''" 50]
      n
    by (simp add: okEngine_flags okEngine_measured helloArgs_fields viewType_of_def js_or_def)
qed

section \<open>Claims about the measurement\<close>

lemmas measure_defs = contentHeight_def measure_elements_def scan_def fallbackHeight_def
  headOf_def plain_def hidden_def hasVisibleContent_def js_trim_def js_whitespace_def
  document_body_def is_body_def marginBottom_px_def parseInt10_def is_digit_def
  digits_value_def digit_val_def display_none_def inside_body_def

lemma scan_skips:
  assumes "\<forall>el\<in>set els. hidden el \<or> \<not> hasVisibleContent el \<or> bottom el \<le> snd acc"
  shows "foldl scan_step acc els = acc"
  using assms
proof (induction els)
  case Nil
  then show ?case by simp
next
  case (Cons el els)
  obtain l m where acc: "acc = (l, m)"
    by (cases acc)
  have "scan_step acc el = acc"
    using Cons.prems by (auto simp: acc)
  then show ?case
    using Cons by simp
qed

lemma display_none_hidden: "display_none el \<Longrightarrow> hidden el"
  by (simp add: display_none_def hidden_def)

text \<open>
  C2, as stated. In \<open>hiddenBodyPage\<close> every element inside the body has \<open>display: none\<close>,
  and the measurement still takes the visible-element branch: the root element is
  displayed and its \<open>textContent\<close> holds the title and the hidden text. It returns 18, the
  bottom edge of the root, where the fallback would give 10.
\<close>

theorem hidden_body_is_not_fallback:
  "inside_body hiddenBodyPage \<noteq> []
    \<and> list_all display_none (inside_body hiddenBodyPage)
    \<and> map_option tagName (fst (scan (all_elements hiddenBodyPage))) = Some ''HTML''
    \<and> contentHeight hiddenBodyPage = Some 18
    \<and> fallbackHeight hiddenBodyPage = Some 10"
  by (simp add: hiddenBodyPage_def measure_defs)

text \<open>
  C2, amended. When every element of the document has \<open>display: none\<close>, the root and the
  body included, no element is selected and the measurement returns the rounded-up bottom
  edge of the body.
\<close>

theorem all_hidden_is_fallback:
  assumes "list_all display_none (all_elements doc)"
  shows "fst (scan (all_elements doc)) = None \<and> contentHeight doc = fallbackHeight doc"
proof -
  have "\<forall>el\<in>set (all_elements doc).
      hidden el \<or> \<not> hasVisibleContent el \<or> bottom el \<le> snd (None :: element option, 0 :: rat)"
    using assms display_none_hidden by (auto simp: list_all_iff)
  then have "scan (all_elements doc) = (None, 0)"
    unfolding scan_def by (rule scan_skips)
  then show ?thesis
    by (simp add: contentHeight_def measure_elements_def fallbackHeight_def)
qed

theorem all_hidden_is_fallback_witness:
  "list_all display_none (all_elements allHiddenPage)
    \<and> contentHeight allHiddenPage = Some 0 \<and> fallbackHeight allHiddenPage = Some 0"
  using all_hidden_is_fallback [of allHiddenPage]
  by (simp add: allHiddenPage_def measure_defs)


subsection \<open>Appending to the body\<close>






lemma textContent_unfold: "textContent x = concat (map child_text (childNodes x))"
  by (cases x) simp








section \<open>Claims about the normalisation\<close>

lemma includes_occurrences: "js_includes pat s \<longleftrightarrow> 0 < occurrences pat s"
  unfolding js_includes_def by (induction s) auto

lemma prefix_before_fresh_char:
  assumes "pat \<noteq> []" and "c \<notin> set (tl pat)" and "u \<noteq> []"
  shows "prefix pat (u @ c # v) \<longleftrightarrow> prefix pat u"
proof
  assume p: "prefix pat (u @ c # v)"
  show "prefix pat u"
  proof (rule ccontr)
    assume n: "\<not> prefix pat u"
    from p have "prefix pat u \<or> (\<exists>w. pat = u @ w \<and> prefix w (c # v))"
      by (auto simp: prefix_append)
    then obtain w where w: "pat = u @ w" "prefix w (c # v)"
      using n by blast
    then have "w \<noteq> []"
      using n by auto
    then have "hd w = c"
      using w(2) by (cases w) auto
    then have "c \<in> set (tl pat)"
      using w(1) \<open>w \<noteq> []\<close> assms(3) by (cases u; cases w) auto
    then show False
      using assms(2) by simp
  qed
next
  assume "prefix pat u"
  then show "prefix pat (u @ c # v)"
    by (simp add: prefix_prefix)
qed

lemma occurrences_before_fresh_char:
  assumes "pat \<noteq> []" and "c \<notin> set (tl pat)"
  shows "occurrences pat (u @ c # v) = occurrences pat u + occurrences pat (c # v)"
proof (induction u)
  case Nil
  then show ?case using assms(1) by simp
next
  case (Cons x u)
  have "prefix pat ((x # u) @ c # v) \<longleftrightarrow> prefix pat (x # u)"
    using prefix_before_fresh_char [OF assms, of "x # u" v] by simp
  then show ?case
    using Cons by simp
qed

text \<open>
  C4, as stated. \<open>headedFragment\<close> has no \<open><html\<close>, so it is wrapped in the document
  shell, which brings a second \<open><head>\<close>; its two viewport tags are both kept.
\<close>

theorem headed_fragment_is_doubled:
  "\<not> js_includes ''<html'' headedFragment
    \<and> occurrences ''<html'' (finalHtmlContent ''Custom View PDF'' headedFragment) = 1
    \<and> occurrences ''<head>'' (finalHtmlContent ''Custom View PDF'' headedFragment) = 2
    \<and> occurrences metaViewportPrefix (finalHtmlContent ''Custom View PDF'' headedFragment) = 2"
  by (simp add: headedFragment_def finalHtmlContent_def ensure_html_def ensure_head_def
      ensure_viewport_def ensure_title_def js_includes_def js_replace_def documentShellOpen_def
      documentShellClose_def metaViewportPrefix_def metaViewportTag_def)


lemmas shell_defs = documentShellOpen_def documentShellClose_def metaViewportPrefix_def
  metaViewportTag_def

lemma ensure_html_wraps:
  assumes "\<not> js_includes ''<html'' s"
  shows "ensure_html s = ''<!DOCTYPE html><html><head>'' @ ''</head><body>'' @ s @ ''</body></html>''"
  using assms by (simp add: ensure_html_def shell_defs)

lemma ensure_head_found:
  "ensure_head (''<!DOCTYPE html><html><head>'' @ x) = ''<!DOCTYPE html><html><head>'' @ x"
  by (simp add: ensure_head_def js_includes_def)

lemma shell_viewport_count:
  "occurrences metaViewportPrefix
      (''<!DOCTYPE html><html><head>'' @ ''</head><body>'' @ s @ ''</body></html>'')
     = occurrences metaViewportPrefix s"
  by (simp add: shell_defs occurrences_before_fresh_char)

lemma ensure_viewport_shell:
  "ensure_viewport (''<!DOCTYPE html><html><head>'' @ ''</head><body>'' @ s @ ''</body></html>'')
     = ''<!DOCTYPE html><html><head>''
         @ (if occurrences metaViewportPrefix s = 0 then metaViewportTag else [])
         @ ''</head><body>'' @ s @ ''</body></html>''"
proof -
  have i: "indexOf ''</head>''
      (''<!DOCTYPE html><html><head>'' @ ''</head><body>'' @ s @ ''</body></html>'')
      = Some (length ''<!DOCTYPE html><html><head>'')"
    by simp
  show ?thesis
    unfolding ensure_viewport_def includes_occurrences shell_viewport_count i
    by simp
qed

lemma ensure_title_shell:
  "ensure_title title (''<!DOCTYPE html><html><head>'' @ y)
     = ''<!DOCTYPE html><html><head>''
         @ (if js_includes ''<title>'' (''<!DOCTYPE html><html><head>'' @ y) then []
            else ''<title>'' @ js_replace '' PDF'' [] title @ ''</title>'')
         @ y"
proof -
  have i: "indexOf ''<head>'' (''<!DOCTYPE html><html><head>'' @ y) = Some 21"
    by simp
  show ?thesis
    unfolding ensure_title_def i by simp
qed

lemma final_shape:
  assumes "\<not> js_includes ''<html'' s"
  shows "\<exists>withTitle. finalHtmlContent title s =
     ''<!DOCTYPE html><html><head>''
       @ (if withTitle then ''<title>'' @ js_replace '' PDF'' [] title @ ''</title>'' else [])
       @ (if occurrences metaViewportPrefix s = 0 then metaViewportTag else [])
       @ ''</head><body>'' @ s @ ''</body></html>''"
proof -
  let ?y = "(if occurrences metaViewportPrefix s = 0 then metaViewportTag else [])
       @ ''</head><body>'' @ s @ ''</body></html>''"
  have "finalHtmlContent title s = ensure_title title (''<!DOCTYPE html><html><head>'' @ ?y)"
    unfolding finalHtmlContent_def ensure_html_wraps [OF assms] ensure_head_found
      ensure_viewport_shell by simp
  then show ?thesis
    unfolding ensure_title_shell
    by (cases "js_includes ''<title>'' (''<!DOCTYPE html><html><head>'' @ ?y)") auto
qed

lemma titles: "js_replace '' PDF'' [] (pdfTitle a) = ''Mobile View''
    \<or> js_replace '' PDF'' [] (pdfTitle a) = ''Custom View''
    \<or> js_replace '' PDF'' [] (pdfTitle a) = ''Desktop View''"
  by (cases "select_branch a") (simp_all add: pdfTitle_def js_replace_def)

lemma shape_counts:
  assumes "t = ''Mobile View'' \<or> t = ''Custom View'' \<or> t = ''Desktop View''"
  shows "occurrences ''<html''
       (''<!DOCTYPE html><html><head>''
         @ (if withTitle then ''<title>'' @ t @ ''</title>'' else [])
         @ (if withMeta then metaViewportTag else [])
         @ ''</head><body>'' @ s @ ''</body></html>'') = 1 + occurrences ''<html'' s"
    and "occurrences ''<head>''
       (''<!DOCTYPE html><html><head>''
         @ (if withTitle then ''<title>'' @ t @ ''</title>'' else [])
         @ (if withMeta then metaViewportTag else [])
         @ ''</head><body>'' @ s @ ''</body></html>'') = 1 + occurrences ''<head>'' s"
    and "occurrences metaViewportPrefix
       (''<!DOCTYPE html><html><head>''
         @ (if withTitle then ''<title>'' @ t @ ''</title>'' else [])
         @ (if withMeta then metaViewportTag else [])
         @ ''</head><body>'' @ s @ ''</body></html>'')
       = (if withMeta then 1 else 0) + occurrences metaViewportPrefix s"
  using assms
  by (auto simp: shell_defs occurrences_before_fresh_char)


text \<open>
  C4, amended. For markup that contains neither \<open><html\<close> nor \<open><head>\<close> and at most one
  viewport meta tag, the normalised document contains exactly one \<open><html\<close>, exactly one
  \<open><head>\<close> and exactly one viewport meta tag: a tag that is there is kept, a missing one is
  added.
\<close>

theorem normalised_fragment_counts:
  assumes "\<not> js_includes ''<html'' s" and "\<not> js_includes ''<head>'' s"
    and "occurrences metaViewportPrefix s \<le> 1"
  shows "occurrences ''<html'' (finalHtmlContent (pdfTitle a) s) = 1
    \<and> occurrences ''<head>'' (finalHtmlContent (pdfTitle a) s) = 1
    \<and> occurrences metaViewportPrefix (finalHtmlContent (pdfTitle a) s) = 1"
proof -
  let ?t = "js_replace '' PDF'' [] (pdfTitle a)"
  let ?withMeta = "occurrences metaViewportPrefix s = 0"
  obtain withTitle where shape: "finalHtmlContent (pdfTitle a) s =
     ''<!DOCTYPE html><html><head>''
       @ (if withTitle then ''<title>'' @ ?t @ ''</title>'' else [])
       @ (if ?withMeta then metaViewportTag else [])
       @ ''</head><body>'' @ s @ ''</body></html>''"
    using final_shape [OF assms(1), of "pdfTitle a"] by blast
  have zero: "occurrences ''<html'' s = 0" "occurrences ''<head>'' s = 0"
    using assms(1,2) by (simp_all add: includes_occurrences)
  note counts = shape_counts [OF titles, of withTitle a ?withMeta s]
  have "occurrences ''<html'' (finalHtmlContent (pdfTitle a) s) = 1"
    unfolding shape counts(1) using zero by simp
  moreover have "occurrences ''<head>'' (finalHtmlContent (pdfTitle a) s) = 1"
    unfolding shape counts(2) using zero by simp
  moreover have "occurrences metaViewportPrefix (finalHtmlContent (pdfTitle a) s) = 1"
    unfolding shape counts(3) using assms(3) by auto
  ultimately show ?thesis
    by simp
qed

theorem normalised_fragment_counts_witness:
  "\<not> js_includes ''<html'' ''<p>Hello</p>''
    \<and> occurrences ''<html'' (finalHtmlContent ''Custom View PDF'' ''<p>Hello</p>'') = 1
    \<and> occurrences ''<head>'' (finalHtmlContent ''Custom View PDF'' ''<p>Hello</p>'') = 1
    \<and> occurrences metaViewportPrefix
          (finalHtmlContent ''Custom View PDF'' ''<p>Hello</p>'') = 1"
proof -
  have a: "\<not> js_includes ''<html'' ''<p>Hello</p>''" "\<not> js_includes ''<head>'' ''<p>Hello</p>''"
    by (simp_all add: js_includes_def)
  have b: "occurrences metaViewportPrefix ''<p>Hello</p>'' \<le> 1"
    by (simp add: metaViewportPrefix_def)
  show ?thesis
    using normalised_fragment_counts [OF a b, of "helloArgs JUndefined JUndefined"] a
    by (simp add: hello_default_args)
qed

end
